theory Spec2Isabelle
  imports Main "HOL-Library.Char_ord" "HOL-Library.List_Lexorder" "HOL-Library.Product_Lexorder"
begin

section \<open>Records and the JSON record store (utils/file\_io.py)\<close>

text \<open>
  A record of the application is a Python dictionary with string keys. Every value that
  the application itself stores in a visit is a string (form variables, text areas and
  \<open>strftime\<close> results), so a visit is a finite map from field names to strings. A field
  that is absent from the dictionary is \<open>None\<close>.
\<close>

type_synonym visit = "string \<rightharpoonup> string"

text \<open>The exceptions that the modelled code can raise or has to handle.\<close>

datatype py_exception = IOError | JSONDecodeError | UnicodeDecodeError | KeyError

text \<open>
  What \<open>open(path, 'r', encoding='utf-8')\<close> followed by \<open>json.load\<close> meets in a file
  that exists:
  \<^item> \<open>Records xs\<close>: a JSON array of objects, decoded to the list \<open>xs\<close>;
  \<^item> \<open>Malformed\<close>: text that is not JSON (\<open>json.load\<close> raises \<open>JSONDecodeError\<close>);
  \<^item> \<open>BadEncoding\<close>: bytes that are not UTF-8 (reading raises \<open>UnicodeDecodeError\<close>,
    a \<open>ValueError\<close> that is neither a \<open>JSONDecodeError\<close> nor an \<open>IOError\<close>);
  \<^item> \<open>Unreadable\<close>: the path exists but cannot be opened for reading (\<open>IOError\<close>).
\<close>

datatype file_content = Records "visit list" | Malformed | BadEncoding | Unreadable

text \<open>
  What writing a path with \<open>open(path, 'w')\<close> and \<open>json.dump\<close> comes to:
  \<^item> \<open>WriteOk\<close>: the file is opened, emptied and written in full;
  \<^item> \<open>OpenFails\<close>: \<open>open\<close> raises \<open>IOError\<close> and the file is not touched;
  \<^item> \<open>DumpFails c\<close>: the file is opened and emptied, and an \<open>IOError\<close> is raised before
    the file is closed; the file is left as \<open>c\<close>. A file cut short reads as \<open>Malformed\<close>
    (no beginning of a JSON array is JSON), or as \<open>BadEncoding\<close> when the cut falls inside
    a character.
\<close>

datatype write_outcome = WriteOk | OpenFails | DumpFails file_content

text \<open>
  The data directory: \<open>files\<close> maps a path to its file (\<open>None\<close> when
  \<open>os.path.exists\<close> is false), \<open>write_result\<close> tells what writing the path comes to,
  and \<open>writes\<close> counts the times a file was opened for writing, and so emptied.
\<close>

record store =
  files :: "string \<rightharpoonup> file_content"
  write_result :: "string \<Rightarrow> write_outcome"
  writes :: nat

text \<open>A path is writable when writing it succeeds.\<close>

definition writable :: "store \<Rightarrow> string \<Rightarrow> bool" where
  "writable s path = (write_result s path = WriteOk)"

definition data_dir :: string where
  "data_dir = ''data''"

text \<open>\<open>os.path.join(self.data_dir, filename)\<close> on a POSIX system.\<close>

definition file_path :: "string \<Rightarrow> string" where
  "file_path filename =
     (if filename \<noteq> [] \<and> hd filename = CHR ''/'' then filename
      else data_dir @ ''/'' @ filename)"

text \<open>
  \<open>FileIOManager.load_data\<close>: the \<open>except\<close> clause names \<open>json.JSONDecodeError\<close> and
  \<open>IOError\<close> only; any other exception leaves the function.
\<close>

definition read_json :: "file_content \<Rightarrow> py_exception + visit list" where
  "read_json f =
     (case f of
        Records xs \<Rightarrow> Inr xs
      | Malformed \<Rightarrow> Inl JSONDecodeError
      | BadEncoding \<Rightarrow> Inl UnicodeDecodeError
      | Unreadable \<Rightarrow> Inl IOError)"

definition load_data :: "store \<Rightarrow> string \<Rightarrow> py_exception + visit list" where
  "load_data s filename =
     (case files s (file_path filename) of
        None \<Rightarrow> Inr []
      | Some f \<Rightarrow>
          (case read_json f of
             Inr xs \<Rightarrow> Inr xs
           | Inl e \<Rightarrow> if e = JSONDecodeError \<or> e = IOError then Inr [] else Inl e))"

text \<open>
  \<open>FileIOManager.save_data\<close>: the whole list replaces the file. An \<open>IOError\<close> is caught
  and reported as \<open>False\<close>, whether it is raised on opening the file or after the file
  has been emptied.
\<close>

definition save_data :: "store \<Rightarrow> string \<Rightarrow> visit list \<Rightarrow> bool \<times> store" where
  "save_data s filename data =
     (case write_result s (file_path filename) of
        WriteOk \<Rightarrow>
          (True, s\<lparr>files := (files s)(file_path filename \<mapsto> Records data),
                   writes := Suc (writes s)\<rparr>)
      | OpenFails \<Rightarrow> (False, s)
      | DumpFails c \<Rightarrow>
          (False, s\<lparr>files := (files s)(file_path filename \<mapsto> c),
                    writes := Suc (writes s)\<rparr>))"

subsection \<open>The visit repository (class OPDManager)\<close>

definition opd_filename :: string where
  "opd_filename = ''opd_visits.json''"

definition get_all_visits :: "store \<Rightarrow> py_exception + visit list" where
  "get_all_visits s = load_data s opd_filename"

text \<open>
  The loop of \<open>update_visit\<close> over \<open>enumerate(visits)\<close>: \<open>seen\<close> holds the records
  already passed. \<open>visit['id']\<close> raises \<open>KeyError\<close> on a record without that key; the
  first record with the id is merged with \<open>dict.update\<close> and the list is saved at once.
\<close>

fun update_loop ::
  "store \<Rightarrow> visit list \<Rightarrow> visit list \<Rightarrow> string \<Rightarrow> visit \<Rightarrow> py_exception + bool \<times> store"
where
  "update_loop s seen [] visit_id updated_data = Inr (False, s)"
| "update_loop s seen (v # rest) visit_id updated_data =
     (case v ''id'' of
        None \<Rightarrow> Inl KeyError
      | Some i \<Rightarrow>
          if i = visit_id
          then Inr (save_data s opd_filename (seen @ (v ++ updated_data) # rest))
          else update_loop s (seen @ [v]) rest visit_id updated_data)"

definition update_visit ::
  "store \<Rightarrow> string \<Rightarrow> visit \<Rightarrow> py_exception + bool \<times> store"
where
  "update_visit s visit_id updated_data =
     (case get_all_visits s of
        Inl e \<Rightarrow> Inl e
      | Inr visits \<Rightarrow> update_loop s [] visits visit_id updated_data)"

text \<open>Every record carries an \<open>id\<close>, as every record written by \<open>add_visit\<close> does.\<close>

definition has_ids :: "visit list \<Rightarrow> bool" where
  "has_ids xs = (\<forall>v \<in> set xs. v ''id'' \<noteq> None)"

subsection \<open>Decimal numerals: \<open>int(str)\<close>, \<open>str(int)\<close> and the format \<open>03d\<close>\<close>

definition digit_char :: "nat \<Rightarrow> char" where
  "digit_char d = ''0123456789'' ! d"

definition digit_val :: "char \<Rightarrow> nat option" where
  "digit_val c = map_of (zip ''0123456789'' [0, 1, 2, 3, 4, 5, 6, 7, 8, 9]) c"

fun digits :: "nat \<Rightarrow> string" where
  "digits n = (if n < 10 then [digit_char n] else digits (n div 10) @ [digit_char (n mod 10)])"

declare digits.simps [simp del]

text \<open>\<open>str(n)\<close> for an integer.\<close>

definition py_str :: "int \<Rightarrow> string" where
  "py_str n = (if n < 0 then CHR ''-'' # digits (nat (- n)) else digits (nat n))"

text \<open>
  \<open>f"{n:03d}"\<close>: the decimal numeral padded with zeros to three characters, the sign
  first and counted in the width.
\<close>

definition format_03d :: "int \<Rightarrow> string" where
  "format_03d n =
     (if n < 0
      then CHR ''-'' # replicate (2 - length (digits (nat (- n)))) CHR ''0'' @ digits (nat (- n))
      else replicate (3 - length (digits (nat n))) CHR ''0'' @ digits (nat n))"

text \<open>
  \<open>int(s)\<close> on an ASCII string: white space (tab, line feed, vertical tab, form feed,
  carriage return, space) is skipped at both ends, a sign may come first, then decimal
  digits, where single underscores may separate digits. Anything else is a
  \<open>ValueError\<close>, here \<open>None\<close>.
\<close>

definition py_isspace :: "char \<Rightarrow> bool" where
  "py_isspace c =
     (c \<in> set [CHR 0x09, CHR 0x0A, CHR 0x0B, CHR 0x0C, CHR 0x0D, CHR '' ''])"

definition strip :: "string \<Rightarrow> string" where
  "strip s = rev (dropWhile py_isspace (rev (dropWhile py_isspace s)))"

fun int_digits :: "string \<Rightarrow> nat \<Rightarrow> nat option" where
  "int_digits [] acc = Some acc"
| "int_digits [c] acc =
     (case digit_val c of None \<Rightarrow> None | Some v \<Rightarrow> Some (acc * 10 + v))"
| "int_digits (c # d # ds) acc =
     (if c = CHR ''_''
      then (case digit_val d of None \<Rightarrow> None | Some v \<Rightarrow> int_digits ds (acc * 10 + v))
      else (case digit_val c of None \<Rightarrow> None | Some v \<Rightarrow> int_digits (d # ds) (acc * 10 + v)))"

definition unsigned :: "string \<Rightarrow> nat option" where
  "unsigned s =
     (case s of
        [] \<Rightarrow> None
      | c # cs \<Rightarrow> (case digit_val c of None \<Rightarrow> None | Some v \<Rightarrow> int_digits cs v))"

definition py_int :: "string \<Rightarrow> int option" where
  "py_int s =
     (case strip s of
        [] \<Rightarrow> None
      | c # cs \<Rightarrow>
          if c = CHR ''-'' then map_option (\<lambda>n. - int n) (unsigned cs)
          else if c = CHR ''+'' then map_option int (unsigned cs)
          else map_option int (unsigned (c # cs)))"

subsection \<open>Sequential identifiers (FileIOManager.generate\_id)\<close>

definition startswith :: "string \<Rightarrow> string \<Rightarrow> bool" where
  "startswith s p = (take (length p) s = p)"

text \<open>
  The loop over \<open>data\<close> with its variable \<open>max_id\<close>: a record without \<open>id\<close> is passed
  over, and so is one whose numeric part \<open>int\<close> rejects.
\<close>

fun max_id_loop :: "visit list \<Rightarrow> string \<Rightarrow> int \<Rightarrow> int" where
  "max_id_loop [] prefix max_id = max_id"
| "max_id_loop (item # rest) prefix max_id =
     (case item ''id'' of
        None \<Rightarrow> max_id_loop rest prefix max_id
      | Some id_str \<Rightarrow>
          (case py_int (if prefix \<noteq> [] \<and> startswith id_str prefix
                        then drop (length prefix) id_str else id_str) of
             None \<Rightarrow> max_id_loop rest prefix max_id
           | Some numeric_id \<Rightarrow> max_id_loop rest prefix (max max_id numeric_id)))"

definition generate_id :: "visit list \<Rightarrow> string \<Rightarrow> string" where
  "generate_id data prefix =
     (if data = [] then prefix @ ''001''
      else prefix @ format_03d (max_id_loop data prefix 0 + 1))"

text \<open>
  \<open>OPDManager.add_visit\<close>. The two readings of the clock arrive already formatted:
  \<open>date_str\<close> (\<open>%Y-%m-%d\<close>) and \<open>time_str\<close> (\<open>%H:%M:%S\<close>). The caller's dictionary is
  changed in place, so the result is the returned boolean, the dictionary as the caller
  sees it afterwards, and the data directory.
\<close>

definition add_visit ::
  "store \<Rightarrow> visit \<Rightarrow> string \<Rightarrow> string \<Rightarrow> py_exception + bool \<times> visit \<times> store"
where
  "add_visit s visit_data date_str time_str =
     (case get_all_visits s of
        Inl e \<Rightarrow> Inl e
      | Inr visits \<Rightarrow>
          (let visit_data' = visit_data(''id'' \<mapsto> generate_id visits ''OPD'',
                                        ''visit_date'' \<mapsto> date_str,
                                        ''visit_time'' \<mapsto> time_str);
               (ok, s') = save_data s opd_filename (visits @ [visit_data'])
           in Inr (ok, visit_data', s')))"

definition get_visits_by_patient :: "store \<Rightarrow> string \<Rightarrow> py_exception + visit list" where
  "get_visits_by_patient s patient_id =
     (case get_all_visits s of
        Inl e \<Rightarrow> Inl e
      | Inr visits \<Rightarrow> Inr (filter (\<lambda>v. v ''patient_id'' = Some patient_id) visits))"

definition get_todays_visits :: "store \<Rightarrow> string \<Rightarrow> py_exception + visit list" where
  "get_todays_visits s today =
     (case get_all_visits s of
        Inl e \<Rightarrow> Inl e
      | Inr visits \<Rightarrow> Inr (filter (\<lambda>v. v ''visit_date'' = Some today) visits))"

subsection \<open>Deleting records\<close>




text \<open>
  \<open>OPDUI.delete_visit\<close>, once a visit is selected and the deletion confirmed: the
  comprehension uses \<open>v.get('id')\<close>. The boolean tells which dialog is shown: \<open>True\<close> for
  "Visit deleted successfully!", \<open>False\<close> for "Failed to delete visit!"; an exception
  ends in the error dialog.
\<close>

definition delete_visit :: "store \<Rightarrow> string \<Rightarrow> py_exception + bool \<times> store" where
  "delete_visit s visit_id =
     (case get_all_visits s of
        Inl e \<Rightarrow> Inl e
      | Inr visits \<Rightarrow>
          Inr (save_data s opd_filename (filter (\<lambda>v. v ''id'' \<noteq> Some visit_id) visits)))"

section \<open>The priority queue (OPDUI.load\_priority\_queue)\<close>

text \<open>\<open>d.get(k, default)\<close> on a dictionary.\<close>

definition dict_get :: "visit \<Rightarrow> string \<Rightarrow> string \<Rightarrow> string" where
  "dict_get d k dflt = (case d k of None \<Rightarrow> dflt | Some v \<Rightarrow> v)"

definition priority_order :: "string \<rightharpoonup> nat" where
  "priority_order =
     [''Emergency'' \<mapsto> 1, ''High'' \<mapsto> 2, ''Normal'' \<mapsto> 3, ''Low'' \<mapsto> 4]"

text \<open>
  The key of the sort, the pair
  \<open>(priority_order.get(x.get('priority', 'Normal'), 3), x.get('visit_time', ''))\<close>.
  Pairs compare lexicographically and strings compare character by character, as
  Python's tuples and strings do.
\<close>

definition queue_key :: "visit \<Rightarrow> nat \<times> string" where
  "queue_key x =
     (case priority_order (dict_get x ''priority'' ''Normal'') of None \<Rightarrow> 3 | Some r \<Rightarrow> r,
      dict_get x ''visit_time'' [])"

definition waiting_visits :: "string \<Rightarrow> visit list \<Rightarrow> visit list" where
  "waiting_visits today visits =
     filter (\<lambda>v. v ''status'' = Some ''Waiting'' \<and> v ''visit_date'' = Some today) visits"

text \<open>\<open>list.sort(key=...)\<close> is a stable sort, ascending in the key.\<close>

definition sorted_waiting :: "string \<Rightarrow> visit list \<Rightarrow> visit list" where
  "sorted_waiting today visits = sort_key queue_key (waiting_visits today visits)"

text \<open>
  \<open>int(wait_time.total_seconds() / 60)\<close> for a difference of \<open>delta\<close> microseconds:
  \<open>int\<close> drops the fraction, towards zero. The model computes with exact integers; for
  differences within a few years the two roundings of the floating-point divisions never
  reach the next whole minute.
\<close>

definition wait_minutes :: "int \<Rightarrow> int" where
  "wait_minutes delta =
     (if 0 \<le> delta then delta div 60000000 else - ((- delta) div 60000000))"

text \<open>
  The waiting time shown for a visit. \<open>strptime\<close> stands for
  \<open>datetime.strptime(_, "%Y-%m-%d %H:%M:%S")\<close>: it gives the microseconds since a fixed
  epoch, or \<open>None\<close> where the library raises \<open>ValueError\<close>; \<open>now\<close> is the reading of
  \<open>datetime.now()\<close> on the same scale. The bare \<open>except\<close> turns every failure into
  \<open>N/A\<close>.
\<close>

definition wait_str :: "(string \<Rightarrow> int option) \<Rightarrow> string \<Rightarrow> int \<Rightarrow> visit \<Rightarrow> string" where
  "wait_str strptime today now visit =
     (let visit_time = dict_get visit ''visit_time'' []
      in if visit_time \<noteq> []
         then (case strptime (today @ '' '' @ visit_time) of
                 Some visit_datetime \<Rightarrow> py_str (wait_minutes (now - visit_datetime)) @ '' min''
               | None \<Rightarrow> ''N/A'')
         else ''N/A'')"

record queue_row =
  row_position :: nat
  row_patient :: string
  row_priority :: string
  row_complaint :: string
  row_wait :: string
  row_visit_id :: string

definition make_row ::
  "(string \<Rightarrow> int option) \<Rightarrow> string \<Rightarrow> int \<Rightarrow> nat \<Rightarrow> visit \<Rightarrow> queue_row"
where
  "make_row strptime today now pos visit =
     \<lparr>row_position = pos,
      row_patient = dict_get visit ''patient_name'' (dict_get visit ''patient_id'' []),
      row_priority = dict_get visit ''priority'' [],
      row_complaint =
        (if length (dict_get visit ''chief_complaint'' []) > 50
         then take 50 (dict_get visit ''chief_complaint'' []) @ ''...''
         else dict_get visit ''chief_complaint'' []),
      row_wait = wait_str strptime today now visit,
      row_visit_id = dict_get visit ''id'' []\<rparr>"

text \<open>
  The loop over \<open>enumerate(waiting_visits, 1)\<close>; \<open>clock i\<close> is the reading of
  \<open>datetime.now()\<close> in the iteration with index \<open>i\<close>, counted from 0.
\<close>

definition queue_rows ::
  "(string \<Rightarrow> int option) \<Rightarrow> string \<Rightarrow> (nat \<Rightarrow> int) \<Rightarrow> visit list \<Rightarrow> queue_row list"
where
  "queue_rows strptime today clock visits =
     map (\<lambda>(i, visit). make_row strptime today (clock i) (Suc i) visit)
       (enumerate 0 (sorted_waiting today visits))"

text \<open>
  The whole method on the rows of the tree view: the rows present are deleted first,
  then the visits are loaded and the new rows inserted. An exception ends in the error
  dialog (the second component) with the tree left empty.
\<close>

definition load_priority_queue ::
  "(string \<Rightarrow> int option) \<Rightarrow> string \<Rightarrow> (nat \<Rightarrow> int) \<Rightarrow> store \<Rightarrow> queue_row list
     \<Rightarrow> queue_row list \<times> py_exception option"
where
  "load_priority_queue strptime today clock s priority_tree =
     (let cleared = filter (\<lambda>item. False) priority_tree
      in case get_all_visits s of
           Inl e \<Rightarrow> (cleared, Some e)
         | Inr visits \<Rightarrow> (cleared @ queue_rows strptime today clock visits, None))"

section \<open>Runs of the repository and example data\<close>

text \<open>
  A run of check-ins and deletions on the visit store. \<open>run_ops\<close> gives the ids that
  the check-ins stored, in order, with the final data directory.
\<close>

datatype repo_op = Add visit string string | Delete string

fun run_ops :: "store \<Rightarrow> repo_op list \<Rightarrow> py_exception + string list \<times> store" where
  "run_ops s [] = Inr ([], s)"
| "run_ops s (Add v date_str time_str # ops) =
     (case add_visit s v date_str time_str of
        Inl e \<Rightarrow> Inl e
      | Inr (ok, v', s') \<Rightarrow>
          (case run_ops s' ops of
             Inl e \<Rightarrow> Inl e
           | Inr (ids, s'') \<Rightarrow> Inr (dict_get v' ''id'' [] # ids, s'')))"
| "run_ops s (Delete visit_id # ops) =
     (case delete_visit s visit_id of
        Inl e \<Rightarrow> Inl e
      | Inr (ok, s') \<Rightarrow> run_ops s' ops)"

text \<open>
  The number that \<open>generate_id\<close> reads in the id of a record, \<open>None\<close> when the record
  has no id or \<open>int\<close> rejects its numeric part.
\<close>

definition id_number :: "string \<Rightarrow> visit \<Rightarrow> int option" where
  "id_number prefix item =
     (case item ''id'' of
        None \<Rightarrow> None
      | Some id_str \<Rightarrow>
          py_int (if prefix \<noteq> [] \<and> startswith id_str prefix
                  then drop (length prefix) id_str else id_str))"

text \<open>The numbers of the stored ids grow strictly along the list.\<close>

fun ascending :: "int option list \<Rightarrow> bool" where
  "ascending [] = True"
| "ascending [x] = (x \<noteq> None)"
| "ascending (x # y # zs) =
     (case (x, y) of (Some a, Some b) \<Rightarrow> a < b \<and> ascending (y # zs) | _ \<Rightarrow> False)"

definition ascending_ids :: "visit list \<Rightarrow> bool" where
  "ascending_ids xs = ascending (map (id_number ''OPD'') xs)"

definition is_add :: "repo_op \<Rightarrow> bool" where
  "is_add op = (case op of Add v d t \<Rightarrow> True | Delete i \<Rightarrow> False)"

text \<open>A visit as a check-in stores it, and a data directory holding a list of visits.\<close>

definition mk_visit :: "string \<Rightarrow> string \<Rightarrow> string \<Rightarrow> string \<Rightarrow> string \<Rightarrow> visit" where
  "mk_visit i p st d t =
     [''id'' \<mapsto> i, ''patient_id'' \<mapsto> ''PAT001'', ''priority'' \<mapsto> p, ''status'' \<mapsto> st,
      ''visit_date'' \<mapsto> d, ''visit_time'' \<mapsto> t, ''chief_complaint'' \<mapsto> ''Fever'']"

definition opd_store :: "visit list \<Rightarrow> store" where
  "opd_store xs =
     \<lparr>files = [file_path opd_filename \<mapsto> Records xs], write_result = (\<lambda>p. WriteOk),
      writes = 0\<rparr>"

text \<open>
  A parser for the examples: it reads \<open>day HH:MM:SS\<close> with two-digit fields and counts
  the microseconds from midnight of \<open>day\<close>.
\<close>

definition two_digits :: "string \<Rightarrow> nat option" where
  "two_digits s =
     (case s of
        [a, b] \<Rightarrow> (case (digit_val a, digit_val b) of
                     (Some x, Some y) \<Rightarrow> Some (10 * x + y) | _ \<Rightarrow> None)
      | _ \<Rightarrow> None)"

definition hms_seconds :: "string \<Rightarrow> nat option" where
  "hms_seconds s =
     (if length s = 8 \<and> s ! 2 = CHR '':'' \<and> s ! 5 = CHR '':''
      then (case (two_digits (take 2 s), two_digits (take 2 (drop 3 s)), two_digits (drop 6 s)) of
              (Some h, Some m, Some sec) \<Rightarrow>
                if h < 24 \<and> m < 60 \<and> sec < 60 then Some (3600 * h + 60 * m + sec) else None
            | _ \<Rightarrow> None)
      else None)"

definition strptime_on :: "string \<Rightarrow> string \<Rightarrow> int option" where
  "strptime_on day s =
     (if take (Suc (length day)) s = day @ '' ''
      then map_option (\<lambda>n. int n * 1000000) (hms_seconds (drop (Suc (length day)) s))
      else None)"

definition two_visits :: "visit list" where
  "two_visits =
     [mk_visit ''OPD001'' ''Normal'' ''Waiting'' ''2024-05-01'' ''09:00:00'',
      mk_visit ''OPD002'' ''High'' ''Waiting'' ''2024-05-01'' ''09:10:00'']"

definition three_visits :: "visit list" where
  "three_visits =
     two_visits @ [mk_visit ''OPD003'' ''Low'' ''Waiting'' ''2024-05-01'' ''09:20:00'']"

text \<open>Strings of decimal digits and their value, for reasoning about \<open>py_int\<close>.\<close>

definition numeral_chars :: "string \<Rightarrow> bool" where
  "numeral_chars s = (\<forall>c \<in> set s. \<exists>d < 10. c = digit_char d)"

definition dec_step :: "nat \<Rightarrow> char \<Rightarrow> nat" where
  "dec_step a c = a * 10 + the (digit_val c)"

section \<open>Decimal numerals\<close>

lemma digit_val_digit_char: "d < 10 \<Longrightarrow> digit_val (digit_char d) = Some d"
proof -
  assume "d < 10"
  then have "d \<in> {0, 1, 2, 3, 4, 5, 6, 7, 8, 9}" by auto
  then show ?thesis
    by (auto simp: digit_val_def digit_char_def)
qed

lemma digit_char_not_space: "d < 10 \<Longrightarrow> \<not> py_isspace (digit_char d)"
proof -
  assume "d < 10"
  then have "d \<in> {0, 1, 2, 3, 4, 5, 6, 7, 8, 9}" by auto
  then show ?thesis
    by (auto simp: py_isspace_def digit_char_def)
qed

lemma digit_char_not_sign:
  "d < 10 \<Longrightarrow> digit_char d \<noteq> CHR ''-'' \<and> digit_char d \<noteq> CHR ''+'' \<and> digit_char d \<noteq> CHR ''_''"
proof -
  assume "d < 10"
  then have "d \<in> {0, 1, 2, 3, 4, 5, 6, 7, 8, 9}" by auto
  then show ?thesis
    by (auto simp: digit_char_def)
qed

lemma dec_step_digit: "d < 10 \<Longrightarrow> dec_step a (digit_char d) = a * 10 + d"
  by (simp add: dec_step_def digit_val_digit_char)

lemma int_digits_numeral:
  "numeral_chars s \<Longrightarrow> int_digits s acc = Some (foldl dec_step acc s)"
proof (induction s acc rule: int_digits.induct)
  case (1 acc)
  then show ?case by simp
next
  case (2 c acc)
  then show ?case
    by (auto simp: numeral_chars_def dec_step_digit digit_val_digit_char)
next
  case (3 c d ds acc)
  from "3.prems" obtain x where x: "x < 10" "c = digit_char x"
    by (auto simp: numeral_chars_def)
  then have c: "c \<noteq> CHR ''_''" "digit_val c = Some x"
    using digit_char_not_sign digit_val_digit_char by auto
  from "3.prems" have "numeral_chars (d # ds)"
    by (simp add: numeral_chars_def)
  with "3.IH"(2) [OF c] have "int_digits (d # ds) (acc * 10 + x) = Some (foldl dec_step (acc * 10 + x) (d # ds))"
    by simp
  with c x show ?case
    by (simp add: dec_step_digit)
qed

lemma numeral_chars_digits: "numeral_chars (digits n)"
proof (induction n rule: digits.induct)
  case (1 n)
  show ?case
  proof (cases "n < 10")
    case True
    then show ?thesis
      by (subst digits.simps) (auto simp: numeral_chars_def)
  next
    case False
    have "\<exists>d < 10. digit_char (n mod 10) = digit_char d"
      by (intro exI [of _ "n mod 10"]) simp
    with False 1 show ?thesis
      by (subst digits.simps) (auto simp: numeral_chars_def)
  qed
qed

lemma foldl_digits: "foldl dec_step 0 (digits n) = n"
proof (induction n rule: digits.induct)
  case (1 n)
  show ?case
  proof (cases "n < 10")
    case True
    then show ?thesis
      by (subst digits.simps) (simp add: dec_step_digit)
  next
    case False
    have "n mod 10 < 10" by simp
    then have "dec_step (n div 10) (digit_char (n mod 10)) = n div 10 * 10 + n mod 10"
      by (rule dec_step_digit)
    with False 1 show ?thesis
      by (subst digits.simps) simp
  qed
qed

lemma digits_not_Nil: "digits n \<noteq> []"
  by (subst digits.simps) simp

lemma foldl_zeros: "foldl dec_step 0 (replicate k CHR ''0'') = 0"
  by (induction k) (simp_all add: replicate_app_Cons_same dec_step_def digit_val_def)

lemma numeral_chars_zeros: "numeral_chars (replicate k CHR ''0'')"
proof -
  have "CHR ''0'' = digit_char 0" by (simp add: digit_char_def)
  then show ?thesis
    by (auto simp: numeral_chars_def intro: exI [of _ 0])
qed

lemma strip_numeral: "numeral_chars s \<Longrightarrow> strip s = s"
proof -
  assume s: "numeral_chars s"
  then have ns: "\<forall>c \<in> set s. \<not> py_isspace c"
    by (auto simp: numeral_chars_def digit_char_not_space)
  then have "dropWhile py_isspace s = s"
    by (cases s) auto
  moreover have "dropWhile py_isspace (rev s) = rev s"
  proof (cases "rev s")
    case Nil
    then show ?thesis by simp
  next
    case (Cons c cs)
    then have "c \<in> set s" by (metis list.set_intros(1) set_rev)
    with ns Cons show ?thesis by simp
  qed
  ultimately show ?thesis
    by (simp add: strip_def)
qed

lemma py_int_numeral:
  assumes "numeral_chars s" "s \<noteq> []"
  shows "py_int s = Some (int (foldl dec_step 0 s))"
proof -
  from assms obtain c cs where s: "s = c # cs" by (cases s) auto
  with assms obtain x where x: "x < 10" "c = digit_char x"
    by (auto simp: numeral_chars_def)
  then have c: "c \<noteq> CHR ''-''" "c \<noteq> CHR ''+''" "digit_val c = Some x"
    using digit_char_not_sign digit_val_digit_char by auto
  from assms s have "numeral_chars cs" by (simp add: numeral_chars_def)
  then have "int_digits cs x = Some (foldl dec_step x cs)"
    by (rule int_digits_numeral)
  then have "unsigned s = Some (foldl dec_step 0 s)"
    using c s by (simp add: unsigned_def dec_step_def)
  with c s strip_numeral [OF assms(1)] show ?thesis
    by (simp add: py_int_def)
qed

lemma py_int_format_03d: "0 \<le> n \<Longrightarrow> py_int (format_03d n) = Some n"
proof -
  assume n: "0 \<le> n"
  let ?k = "3 - length (digits (nat n))"
  let ?s = "replicate ?k CHR ''0'' @ digits (nat n)"
  have "numeral_chars ?s"
    using numeral_chars_zeros [of ?k] numeral_chars_digits [of "nat n"]
    by (auto simp: numeral_chars_def)
  moreover have "?s \<noteq> []" by (simp add: digits_not_Nil)
  ultimately have "py_int ?s = Some (int (foldl dec_step 0 ?s))"
    by (rule py_int_numeral)
  also have "foldl dec_step 0 ?s = nat n"
    by (simp add: foldl_zeros foldl_digits)
  finally show ?thesis
    using n by (simp add: format_03d_def)
qed

lemma format_03d_1: "format_03d 1 = ''001''"
  by code_simp

section \<open>Properties of the record store\<close>

lemma get_all_visits_opd_store: "get_all_visits (opd_store xs) = Inr xs"
  by (simp add: get_all_visits_def load_data_def opd_store_def read_json_def)

lemma update_loop_absent:
  "has_ids xs \<Longrightarrow> \<forall>v \<in> set xs. v ''id'' \<noteq> Some visit_id \<Longrightarrow>
   update_loop s seen xs visit_id updated_data = Inr (False, s)"
  by (induction xs arbitrary: seen) (auto simp: has_ids_def)

lemma save_data_writable:
  "writable s (file_path filename) \<Longrightarrow>
   fst (save_data s filename ys) = True
   \<and> load_data (snd (save_data s filename ys)) filename = Inr ys
   \<and> writes (snd (save_data s filename ys)) = Suc (writes s)"
  by (simp add: save_data_def writable_def load_data_def read_json_def)



lemma writable_save_data: "writable (snd (save_data s f ys)) p = writable s p"
  by (simp add: save_data_def writable_def split: write_outcome.split)

lemma writable_opd_store: "writable (opd_store xs) p"
  by (simp add: opd_store_def writable_def)

text \<open>
  Claim C4. When the store file decodes to a list of visits none of which has the given
  id, \<open>update_visit\<close> returns \<open>False\<close> and the data directory is exactly what it was: no
  file content has changed and no write has been counted.
\<close>

theorem update_visit_absent_id:
  assumes "get_all_visits s = Inr xs"
    and "has_ids xs"
    and "\<forall>v \<in> set xs. v ''id'' \<noteq> Some visit_id"
  shows "update_visit s visit_id updated_data = Inr (False, s)"
  using assms by (simp add: update_visit_def update_loop_absent)

theorem update_visit_absent_id_witness:
  "update_visit (opd_store [mk_visit ''OPD001'' ''Normal'' ''Waiting'' ''2024-05-01'' ''09:00:00''])
     ''OPD002'' [''status'' \<mapsto> ''Completed'']
   = Inr (False, opd_store [mk_visit ''OPD001'' ''Normal'' ''Waiting'' ''2024-05-01'' ''09:00:00''])"
  using update_visit_absent_id
    [of "opd_store [mk_visit ''OPD001'' ''Normal'' ''Waiting'' ''2024-05-01'' ''09:00:00'']"
        "[mk_visit ''OPD001'' ''Normal'' ''Waiting'' ''2024-05-01'' ''09:00:00'']"
        "''OPD002''" "[''status'' \<mapsto> ''Completed'']"]
  by (simp add: get_all_visits_opd_store has_ids_def mk_visit_def)

lemma update_loop_found:
  "has_ids xs \<Longrightarrow> \<exists>v \<in> set xs. v ''id'' = Some vid \<Longrightarrow>
   \<exists>i < length xs. (xs ! i) ''id'' = Some vid \<and> (\<forall>j < i. (xs ! j) ''id'' \<noteq> Some vid)
     \<and> update_loop s seen xs vid f
         = Inr (save_data s opd_filename (seen @ xs[i := (xs ! i) ++ f]))"
proof (induction xs arbitrary: seen)
  case Nil
  then show ?case by simp
next
  case (Cons v rest)
  from Cons.prems(1) obtain k where k: "v ''id'' = Some k"
    by (auto simp: has_ids_def)
  show ?case
  proof (cases "k = vid")
    case True
    with k have "update_loop s seen (v # rest) vid f
        = Inr (save_data s opd_filename (seen @ (v # rest)[0 := ((v # rest) ! 0) ++ f]))"
      by simp
    with k True show ?thesis
      by (intro exI [of _ 0]) simp
  next
    case False
    with k Cons.prems have "has_ids rest" "\<exists>v \<in> set rest. v ''id'' = Some vid"
      by (auto simp: has_ids_def)
    from Cons.IH [OF this, of "seen @ [v]"] obtain i where i: "i < length rest"
      "(rest ! i) ''id'' = Some vid" "\<forall>j < i. (rest ! j) ''id'' \<noteq> Some vid"
      "update_loop s (seen @ [v]) rest vid f
         = Inr (save_data s opd_filename ((seen @ [v]) @ rest[i := (rest ! i) ++ f]))"
      by blast
    have "\<forall>j < Suc i. ((v # rest) ! j) ''id'' \<noteq> Some vid"
      using i(3) k False by (auto simp: less_Suc_eq_0_disj)
    moreover have "update_loop s seen (v # rest) vid f
         = Inr (save_data s opd_filename (seen @ (v # rest)[Suc i := ((v # rest) ! Suc i) ++ f]))"
      using i(4) k False by simp
    ultimately show ?thesis
      using i(1,2) by (intro exI [of _ "Suc i"]) simp
  qed
qed

text \<open>
  Claim C9. When the store file decodes to records that all carry an id and one of them
  has the given id, \<open>update_visit\<close> hands to \<open>save_data\<close> a list \<open>ys\<close> of the same
  length in which only the first record with that id, at index \<open>i\<close>, has changed: there
  every key of the update has the new value and every other key its old one, and all other
  positions hold the records they held. Where the file can be written, \<open>True\<close> is returned
  and the file holds \<open>ys\<close>.
\<close>

theorem update_visit_merges_first_match:
  assumes "get_all_visits s = Inr xs"
    and "has_ids xs"
    and "\<exists>v \<in> set xs. v ''id'' = Some vid"
  shows "\<exists>i ys. i < length xs \<and> (xs ! i) ''id'' = Some vid
      \<and> (\<forall>j < i. (xs ! j) ''id'' \<noteq> Some vid)
      \<and> update_visit s vid upd = Inr (save_data s opd_filename ys)
      \<and> length ys = length xs
      \<and> (\<forall>k. (ys ! i) k = (case upd k of Some x \<Rightarrow> Some x | None \<Rightarrow> (xs ! i) k))
      \<and> (\<forall>j < length xs. j \<noteq> i \<longrightarrow> ys ! j = xs ! j)
      \<and> (writable s (file_path opd_filename) \<longrightarrow>
           fst (save_data s opd_filename ys) = True
           \<and> get_all_visits (snd (save_data s opd_filename ys)) = Inr ys)"
proof -
  from update_loop_found [OF assms(2,3), of s "[]" upd] obtain i where i: "i < length xs"
    "(xs ! i) ''id'' = Some vid" "\<forall>j < i. (xs ! j) ''id'' \<noteq> Some vid"
    "update_loop s [] xs vid upd = Inr (save_data s opd_filename (xs[i := (xs ! i) ++ upd]))"
    by auto
  let ?ys = "xs[i := (xs ! i) ++ upd]"
  have "update_visit s vid upd = Inr (save_data s opd_filename ?ys)"
    using assms(1) i(4) by (simp add: update_visit_def)
  moreover have "\<forall>k. (?ys ! i) k = (case upd k of Some x \<Rightarrow> Some x | None \<Rightarrow> (xs ! i) k)"
    using i(1) by (simp add: map_add_def split: option.split)
  moreover have "\<forall>j < length xs. j \<noteq> i \<longrightarrow> ?ys ! j = xs ! j"
    by simp
  moreover have "writable s (file_path opd_filename) \<longrightarrow>
           fst (save_data s opd_filename ?ys) = True
           \<and> get_all_visits (snd (save_data s opd_filename ?ys)) = Inr ?ys"
    using save_data_writable [of s opd_filename ?ys] by (simp add: get_all_visits_def)
  ultimately show ?thesis
    using i(1,2,3) by (intro exI [of _ i] exI [of _ ?ys]) simp
qed

theorem update_visit_merges_first_match_witness:
  "\<exists>i ys. i < length two_visits \<and> (two_visits ! i) ''id'' = Some ''OPD002''
      \<and> (\<forall>j < i. (two_visits ! j) ''id'' \<noteq> Some ''OPD002'')
      \<and> update_visit (opd_store two_visits) ''OPD002'' [''status'' \<mapsto> ''Completed'']
          = Inr (save_data (opd_store two_visits) opd_filename ys)
      \<and> length ys = length two_visits
      \<and> (\<forall>k. (ys ! i) k = (case [''status'' \<mapsto> ''Completed''] k of
                 Some x \<Rightarrow> Some x | None \<Rightarrow> (two_visits ! i) k))
      \<and> (\<forall>j < length two_visits. j \<noteq> i \<longrightarrow> ys ! j = two_visits ! j)
      \<and> (writable (opd_store two_visits) (file_path opd_filename) \<longrightarrow>
           fst (save_data (opd_store two_visits) opd_filename ys) = True
           \<and> get_all_visits (snd (save_data (opd_store two_visits) opd_filename ys)) = Inr ys)"
  using update_visit_merges_first_match
    [of "opd_store two_visits" two_visits "''OPD002''" "[''status'' \<mapsto> ''Completed'']"]
  by (simp add: get_all_visits_opd_store has_ids_def two_visits_def mk_visit_def)





lemma load_data_caught:
  "files s (file_path filename) \<in> {None, Some Malformed, Some Unreadable} \<Longrightarrow>
   load_data s filename = Inr []"
  by (auto simp: load_data_def read_json_def)

lemma load_data_records:
  "files s (file_path filename) = Some (Records xs) \<Longrightarrow> load_data s filename = Inr xs"
  by (simp add: load_data_def read_json_def)

text \<open>
  Claim C10. \<open>load_data\<close> catches \<open>JSONDecodeError\<close> and \<open>IOError\<close> only. On a file whose
  bytes are not UTF-8 the read raises \<open>UnicodeDecodeError\<close>, which leaves \<open>load_data\<close>
  and \<open>get_all_visits\<close> instead of the empty list.
\<close>

theorem load_data_bad_encoding_raises:
  "load_data \<lparr>files = [file_path ''opd_visits.json'' \<mapsto> BadEncoding],
              write_result = (\<lambda>p. WriteOk), writes = 0\<rparr> ''opd_visits.json''
     = Inl UnicodeDecodeError
   \<and> get_all_visits \<lparr>files = [file_path ''opd_visits.json'' \<mapsto> BadEncoding],
                      write_result = (\<lambda>p. WriteOk), writes = 0\<rparr>
     = Inl UnicodeDecodeError"
  by (simp add: load_data_def get_all_visits_def opd_filename_def read_json_def)

section \<open>Properties of the priority queue\<close>

lemma row_positions:
  "map row_position (queue_rows P today clock visits)
   = [1..<Suc (length (waiting_visits today visits))]"
proof -
  let ?ys = "sorted_waiting today visits"
  have "map row_position (queue_rows P today clock visits)
        = map (\<lambda>p. Suc (fst p)) (enumerate 0 ?ys)"
    by (simp add: queue_rows_def make_row_def case_prod_unfold comp_def)
  also have "\<dots> = map Suc (map fst (enumerate 0 ?ys))"
    by (simp only: map_map comp_def)
  also have "\<dots> = map Suc [0..<length ?ys]"
    by (simp only: map_fst_enumerate add_0)
  also have "\<dots> = [Suc 0..<Suc (length ?ys)]"
    by (simp only: map_Suc_upt)
  finally show ?thesis
    by (simp add: sorted_waiting_def)
qed

lemma row_visits:
  "map (\<lambda>r. (row_patient r, row_priority r, row_complaint r, row_visit_id r))
     (queue_rows P today clock visits)
   = map (\<lambda>v. (row_patient (make_row P today 0 0 v), row_priority (make_row P today 0 0 v),
                row_complaint (make_row P today 0 0 v), row_visit_id (make_row P today 0 0 v)))
       (sorted_waiting today visits)"
proof -
  let ?ys = "sorted_waiting today visits"
  let ?f = "\<lambda>v. (row_patient (make_row P today 0 0 v), row_priority (make_row P today 0 0 v),
                row_complaint (make_row P today 0 0 v), row_visit_id (make_row P today 0 0 v))"
  have "map (\<lambda>r. (row_patient r, row_priority r, row_complaint r, row_visit_id r))
          (queue_rows P today clock visits)
        = map (\<lambda>p. ?f (snd p)) (enumerate 0 ?ys)"
    by (simp add: queue_rows_def make_row_def case_prod_unfold comp_def)
  also have "\<dots> = map ?f (map snd (enumerate 0 ?ys))"
    by (simp only: map_map comp_def)
  finally show ?thesis
    by (simp only: map_snd_enumerate)
qed

lemma sorted_waiting_keys: "sorted (map queue_key (sorted_waiting today visits))"
  by (simp add: sorted_waiting_def)

lemma sorted_waiting_pairs:
  "sorted_wrt (\<lambda>v w. fst (queue_key v) < fst (queue_key w)
       \<or> fst (queue_key v) = fst (queue_key w) \<and> snd (queue_key v) \<le> snd (queue_key w))
     (sorted_waiting today visits)"
proof -
  have "sorted_wrt (\<lambda>v w. queue_key v \<le> queue_key w) (sorted_waiting today visits)"
    using sorted_waiting_keys [of today visits] by (simp only: sorted_map)
  then show ?thesis
    by (rule sorted_wrt_mono_rel [rotated]) (auto simp: less_eq_prod_def)
qed

lemma queue_key_rank:
  "fst (queue_key v) =
     (case v ''priority'' of
        None \<Rightarrow> 3
      | Some p \<Rightarrow> if p = ''Emergency'' then 1 else if p = ''High'' then 2
                  else if p = ''Normal'' then 3 else if p = ''Low'' then 4 else 3)"
  by (simp add: queue_key_def priority_order_def dict_get_def split: option.split)

lemma queue_key_time:
  "snd (queue_key v) = (case v ''visit_time'' of None \<Rightarrow> [] | Some t \<Rightarrow> t)"
  by (simp add: queue_key_def dict_get_def)

lemma example_queue_order:
  "map (\<lambda>v. (v ''priority'', v ''visit_time''))
     (sorted_waiting ''2024-05-01''
        [mk_visit ''OPD001'' ''Normal'' ''Waiting'' ''2024-05-01'' ''09:00'',
         mk_visit ''OPD002'' ''Emergency'' ''Waiting'' ''2024-05-01'' ''09:05'',
         mk_visit ''OPD003'' ''High'' ''Waiting'' ''2024-05-01'' ''08:50'',
         mk_visit ''OPD004'' ''Emergency'' ''Waiting'' ''2024-05-01'' ''08:40''])
   = [(Some ''Emergency'', Some ''08:40''), (Some ''Emergency'', Some ''09:05''),
      (Some ''High'', Some ''08:50''), (Some ''Normal'', Some ''09:00'')]"
  by (simp add: sorted_waiting_def waiting_visits_def mk_visit_def queue_key_def
      priority_order_def dict_get_def)

lemma example_queue_rows:
  "map (\<lambda>r. (row_position r, row_priority r, row_visit_id r))
     (queue_rows P ''2024-05-01'' clock
        [mk_visit ''OPD001'' ''Normal'' ''Waiting'' ''2024-05-01'' ''09:00'',
         mk_visit ''OPD002'' ''Emergency'' ''Waiting'' ''2024-05-01'' ''09:05'',
         mk_visit ''OPD003'' ''High'' ''Waiting'' ''2024-05-01'' ''08:50'',
         mk_visit ''OPD004'' ''Emergency'' ''Waiting'' ''2024-05-01'' ''08:40''])
   = [(1, ''Emergency'', ''OPD004''), (2, ''Emergency'', ''OPD002''),
      (3, ''High'', ''OPD003''), (4, ''Normal'', ''OPD001'')]"
  by (simp add: queue_rows_def sorted_waiting_def waiting_visits_def mk_visit_def queue_key_def
      priority_order_def dict_get_def make_row_def enumerate_eq_zip)

lemma load_priority_queue_rows:
  "get_all_visits s = Inr visits \<Longrightarrow>
   load_priority_queue P today clock s tree = (queue_rows P today clock visits, None)"
  by (simp add: load_priority_queue_def)

lemma sorted_waiting_stable:
  "filter (\<lambda>v. queue_key v = k) (sorted_waiting today visits)
   = filter (\<lambda>v. (v ''status'' = Some ''Waiting'' \<and> v ''visit_date'' = Some today)
                  \<and> queue_key v = k) visits"
  by (simp add: sorted_waiting_def sort_key_stable waiting_visits_def)

lemma example_load_priority_queue:
  "map (\<lambda>r. (row_position r, row_priority r, row_visit_id r))
     (fst (load_priority_queue P ''2024-05-01'' clock
        (opd_store
          [mk_visit ''OPD001'' ''Normal'' ''Waiting'' ''2024-05-01'' ''09:00'',
           mk_visit ''OPD002'' ''Emergency'' ''Waiting'' ''2024-05-01'' ''09:05'',
           mk_visit ''OPD003'' ''High'' ''Waiting'' ''2024-05-01'' ''08:50'',
           mk_visit ''OPD004'' ''Emergency'' ''Waiting'' ''2024-05-01'' ''08:40'']) tree))
   = [(1, ''Emergency'', ''OPD004''), (2, ''Emergency'', ''OPD002''),
      (3, ''High'', ''OPD003''), (4, ''Normal'', ''OPD001'')]"
  by (simp only: load_priority_queue_rows [OF get_all_visits_opd_store] fst_conv
      example_queue_rows)

text \<open>
  Claim C1. When the store file decodes to the list \<open>visits\<close>, \<open>load_priority_queue\<close>
  shows one row for each visit of \<open>visits\<close> whose status is Waiting and whose date is
  today, and for no other; the rows follow the visits in ascending order of the pair
  (priority rank, visit time): of two visits the earlier one has the smaller rank, or the
  same rank and a visit time that is not greater in the lexicographic order of strings.
  The rank is 1 for Emergency, 2 for High, 3 for Normal, 4 for Low and 3 for any other or
  missing priority; a missing visit time counts as the empty string. The visits with one
  key are the waiting visits of today with that key in their storage order, the rows are
  numbered from 1, and the four visits of the example come out as Emergency 08:40,
  Emergency 09:05, High 08:50, Normal 09:00.
\<close>

theorem priority_queue_order:
  assumes "get_all_visits s = Inr visits"
  shows "load_priority_queue P today clock s tree
       = (map (\<lambda>(i, v). make_row P today (clock i) (Suc i) v)
            (enumerate 0 (sorted_waiting today visits)), None)
   \<and> set (sorted_waiting today visits)
       = {v \<in> set visits. v ''status'' = Some ''Waiting'' \<and> v ''visit_date'' = Some today}
   \<and> sorted_wrt (\<lambda>v w. fst (queue_key v) < fst (queue_key w)
         \<or> fst (queue_key v) = fst (queue_key w) \<and> snd (queue_key v) \<le> snd (queue_key w))
       (sorted_waiting today visits)
   \<and> fst (queue_key v) =
       (case v ''priority'' of
          None \<Rightarrow> 3
        | Some p \<Rightarrow> if p = ''Emergency'' then 1 else if p = ''High'' then 2
                    else if p = ''Normal'' then 3 else if p = ''Low'' then 4 else 3)
   \<and> snd (queue_key v) = (case v ''visit_time'' of None \<Rightarrow> [] | Some t \<Rightarrow> t)
   \<and> filter (\<lambda>v. queue_key v = k) (sorted_waiting today visits)
       = filter (\<lambda>v. (v ''status'' = Some ''Waiting'' \<and> v ''visit_date'' = Some today)
                      \<and> queue_key v = k) visits
   \<and> map row_position (fst (load_priority_queue P today clock s tree))
       = [1..<Suc (length (filter (\<lambda>v. v ''status'' = Some ''Waiting''
                                        \<and> v ''visit_date'' = Some today) visits))]
   \<and> map row_visit_id (fst (load_priority_queue P today clock s tree))
       = map (\<lambda>v. dict_get v ''id'' []) (sorted_waiting today visits)
   \<and> map (\<lambda>v. (v ''priority'', v ''visit_time''))
       (sorted_waiting ''2024-05-01''
          [mk_visit ''OPD001'' ''Normal'' ''Waiting'' ''2024-05-01'' ''09:00'',
           mk_visit ''OPD002'' ''Emergency'' ''Waiting'' ''2024-05-01'' ''09:05'',
           mk_visit ''OPD003'' ''High'' ''Waiting'' ''2024-05-01'' ''08:50'',
           mk_visit ''OPD004'' ''Emergency'' ''Waiting'' ''2024-05-01'' ''08:40''])
       = [(Some ''Emergency'', Some ''08:40''), (Some ''Emergency'', Some ''09:05''),
          (Some ''High'', Some ''08:50''), (Some ''Normal'', Some ''09:00'')]
   \<and> map (\<lambda>r. (row_position r, row_priority r, row_visit_id r))
       (fst (load_priority_queue P ''2024-05-01'' clock
          (opd_store
            [mk_visit ''OPD001'' ''Normal'' ''Waiting'' ''2024-05-01'' ''09:00'',
             mk_visit ''OPD002'' ''Emergency'' ''Waiting'' ''2024-05-01'' ''09:05'',
             mk_visit ''OPD003'' ''High'' ''Waiting'' ''2024-05-01'' ''08:50'',
             mk_visit ''OPD004'' ''Emergency'' ''Waiting'' ''2024-05-01'' ''08:40'']) tree))
       = [(1, ''Emergency'', ''OPD004''), (2, ''Emergency'', ''OPD002''),
          (3, ''High'', ''OPD003''), (4, ''Normal'', ''OPD001'')]"
proof -
  note lpq = load_priority_queue_rows [OF assms, of P today clock tree]
  have rows: "load_priority_queue P today clock s tree
       = (map (\<lambda>(i, v). make_row P today (clock i) (Suc i) v)
            (enumerate 0 (sorted_waiting today visits)), None)"
    by (simp only: lpq queue_rows_def)
  have members: "set (sorted_waiting today visits)
       = {v \<in> set visits. v ''status'' = Some ''Waiting'' \<and> v ''visit_date'' = Some today}"
    by (simp add: sorted_waiting_def waiting_visits_def)
  have pos: "map row_position (fst (load_priority_queue P today clock s tree))
       = [1..<Suc (length (filter (\<lambda>v. v ''status'' = Some ''Waiting''
                                        \<and> v ''visit_date'' = Some today) visits))]"
    using row_positions [of P today clock visits] by (simp only: lpq fst_conv waiting_visits_def)
  have ids: "map row_visit_id (fst (load_priority_queue P today clock s tree))
       = map (\<lambda>v. dict_get v ''id'' []) (sorted_waiting today visits)"
    using row_visits [of P today clock visits, THEN arg_cong, of "map (\<lambda>q. snd (snd (snd q)))"]
    by (simp add: lpq comp_def make_row_def)
  show ?thesis
    by (intro conjI rows members sorted_waiting_pairs queue_key_rank queue_key_time
        sorted_waiting_stable pos ids example_queue_order example_load_priority_queue)
qed

theorem priority_queue_order_witness:
  "map row_visit_id
     (fst (load_priority_queue (strptime_on ''2024-05-01'') ''2024-05-01'' (\<lambda>i. 0)
        (opd_store two_visits) []))
   = [''OPD002'', ''OPD001'']
   \<and> map row_position
     (fst (load_priority_queue (strptime_on ''2024-05-01'') ''2024-05-01'' (\<lambda>i. 0)
        (opd_store two_visits) []))
   = [1, 2]"
proof -
  note q = priority_queue_order
      [OF get_all_visits_opd_store, of "strptime_on ''2024-05-01''" "''2024-05-01''" "\<lambda>i. 0"
         two_visits "[]"]
  note pos = q [THEN conjunct2, THEN conjunct2, THEN conjunct2, THEN conjunct2, THEN conjunct2,
      THEN conjunct2, THEN conjunct1]
  note ids = q [THEN conjunct2, THEN conjunct2, THEN conjunct2, THEN conjunct2, THEN conjunct2,
      THEN conjunct2, THEN conjunct2, THEN conjunct1]
  have "map (\<lambda>v. dict_get v ''id'' []) (sorted_waiting ''2024-05-01'' two_visits)
      = [''OPD002'', ''OPD001'']"
    by (simp add: sorted_waiting_def waiting_visits_def two_visits_def mk_visit_def queue_key_def
        priority_order_def dict_get_def)
  moreover have "[1..<Suc (length (filter (\<lambda>v. v ''status'' = Some ''Waiting''
      \<and> v ''visit_date'' = Some ''2024-05-01'') two_visits))] = [1, 2]"
    by (simp add: two_visits_def mk_visit_def upt_rec)
  ultimately show ?thesis
    using pos ids by simp
qed

text \<open>
  Claim C5. A visit whose status is not Waiting or whose date is not today is not among
  the visits that the queue shows, whatever its priority; and every row of the queue is
  made from a stored visit that is waiting and dated today.
\<close>

theorem not_waiting_today_not_queued:
  assumes "v ''status'' \<noteq> Some ''Waiting'' \<or> v ''visit_date'' \<noteq> Some today"
  shows "v \<notin> set (sorted_waiting today visits)
     \<and> (\<forall>r \<in> set (queue_rows P today clock visits).
          \<exists>w \<in> set visits. w ''status'' = Some ''Waiting'' \<and> w ''visit_date'' = Some today
             \<and> r = make_row P today (clock (row_position r - 1)) (row_position r) w)"
proof -
  have "v \<notin> set (sorted_waiting today visits)"
    using assms by (auto simp: sorted_waiting_def waiting_visits_def)
  moreover have "\<forall>r \<in> set (queue_rows P today clock visits).
          \<exists>w \<in> set visits. w ''status'' = Some ''Waiting'' \<and> w ''visit_date'' = Some today
             \<and> r = make_row P today (clock (row_position r - 1)) (row_position r) w"
  proof
    fix r assume "r \<in> set (queue_rows P today clock visits)"
    then obtain i w where iw: "(i, w) \<in> set (enumerate 0 (sorted_waiting today visits))"
      "r = make_row P today (clock i) (Suc i) w"
      by (auto simp: queue_rows_def)
    then have "w \<in> set (sorted_waiting today visits)"
      by (auto simp: in_set_enumerate_eq)
    then have "w \<in> set visits" "w ''status'' = Some ''Waiting''" "w ''visit_date'' = Some today"
      by (auto simp: sorted_waiting_def waiting_visits_def)
    moreover have "row_position r = Suc i"
      using iw(2) by (simp add: make_row_def)
    ultimately show "\<exists>w \<in> set visits. w ''status'' = Some ''Waiting'' \<and> w ''visit_date'' = Some today
             \<and> r = make_row P today (clock (row_position r - 1)) (row_position r) w"
      using iw(2) by auto
  qed
  ultimately show ?thesis by blast
qed

theorem not_waiting_today_not_queued_witness:
  "mk_visit ''OPD002'' ''Emergency'' ''Completed'' ''2024-05-01'' ''09:10:00''
     \<notin> set (sorted_waiting ''2024-05-01''
          [mk_visit ''OPD001'' ''Normal'' ''Waiting'' ''2024-05-01'' ''09:00:00'',
           mk_visit ''OPD002'' ''Emergency'' ''Completed'' ''2024-05-01'' ''09:10:00''])"
  using not_waiting_today_not_queued
    [of "mk_visit ''OPD002'' ''Emergency'' ''Completed'' ''2024-05-01'' ''09:10:00''"
        "''2024-05-01''"
        "[mk_visit ''OPD001'' ''Normal'' ''Waiting'' ''2024-05-01'' ''09:00:00'',
          mk_visit ''OPD002'' ''Emergency'' ''Completed'' ''2024-05-01'' ''09:10:00'']"]
  by (simp add: mk_visit_def)

text \<open>
  Claim C8. Loading the queue again on the same store, date and clock gives the same
  rows and the same outcome, whatever rows the tree held before; and the positions,
  patients, priorities, complaints and visit ids of the rows do not depend on the clock
  at all, so they are the same on every refresh of the same store on the same day.
\<close>

theorem load_priority_queue_repeatable:
  "load_priority_queue P today clock s (fst (load_priority_queue P today clock s tree))
     = load_priority_queue P today clock s tree
   \<and> map (\<lambda>r. (row_position r, row_patient r, row_priority r, row_complaint r, row_visit_id r))
       (fst (load_priority_queue P today clock s tree))
     = map (\<lambda>r. (row_position r, row_patient r, row_priority r, row_complaint r, row_visit_id r))
       (fst (load_priority_queue P today clock' s tree'))"
  by (auto simp: load_priority_queue_def queue_rows_def make_row_def split: sum.splits)

lemma row_waits:
  "map row_wait (queue_rows P today clock visits)
   = map (\<lambda>(i, v). wait_str P today (clock i) v) (enumerate 0 (sorted_waiting today visits))"
  by (simp add: queue_rows_def make_row_def case_prod_unfold comp_def)

text \<open>
  Claim C6, amended. For a visit with a non-empty visit time that \<open>strptime\<close> reads as
  the instant \<open>t\<close>, the wait shown is the whole number of minutes in \<open>now - t\<close> with the
  fraction dropped towards zero: the floor of the minutes when the check-in is not after
  \<open>now\<close>, and the negated floor of the minutes of \<open>t - now\<close> when it is. A visit
  without a visit time, with an empty one, or with one that \<open>strptime\<close> rejects shows
  \<open>N/A\<close>. Each row of the queue carries this text for its visit; a queued visit is dated
  today, so the date parsed is its visit date.
\<close>

theorem wait_str_truncated_minutes:
  "(v ''visit_time'' = Some vt \<and> vt \<noteq> [] \<and> P (today @ '' '' @ vt) = Some t \<and> t \<le> now \<longrightarrow>
      wait_str P today now v = py_str ((now - t) div 60000000) @ '' min'')
   \<and> (v ''visit_time'' = Some vt \<and> vt \<noteq> [] \<and> P (today @ '' '' @ vt) = Some t \<and> now < t \<longrightarrow>
      wait_str P today now v = py_str (- ((t - now) div 60000000)) @ '' min'')
   \<and> (v ''visit_time'' = None \<or> v ''visit_time'' = Some [] \<longrightarrow>
      wait_str P today now v = ''N/A'')
   \<and> (v ''visit_time'' = Some vt \<and> P (today @ '' '' @ vt) = None \<longrightarrow>
      wait_str P today now v = ''N/A'')
   \<and> map row_wait (queue_rows P today clock visits)
      = map (\<lambda>(i, v). wait_str P today (clock i) v) (enumerate 0 (sorted_waiting today visits))"
  using row_waits [of P today clock visits]
  by (auto simp: wait_str_def dict_get_def wait_minutes_def Let_def)

lemma strptime_on_0900:
  "strptime_on ''2024-05-01'' (''2024-05-01'' @ '' '' @ ''09:00:00'') = Some 32400000000"
  by (simp add: strptime_on_def hms_seconds_def two_digits_def digit_val_def)

lemma py_str_15: "py_str 15 = ''15''"
  by code_simp

theorem wait_str_truncated_minutes_witness:
  "wait_str (strptime_on ''2024-05-01'') ''2024-05-01'' 33300000000
     (mk_visit ''OPD001'' ''Normal'' ''Waiting'' ''2024-05-01'' ''09:00:00'') = ''15 min''
   \<and> wait_str (strptime_on ''2024-05-01'') ''2024-05-01'' 33300000000
     [''id'' \<mapsto> ''OPD002''] = ''N/A''
   \<and> wait_str (strptime_on ''2024-05-01'') ''2024-05-01'' 33300000000
     (mk_visit ''OPD003'' ''Normal'' ''Waiting'' ''2024-05-01'' ''soon'') = ''N/A''"
proof -
  have a: "wait_str (strptime_on ''2024-05-01'') ''2024-05-01'' 33300000000
     (mk_visit ''OPD001'' ''Normal'' ''Waiting'' ''2024-05-01'' ''09:00:00'') = ''15 min''"
    using wait_str_truncated_minutes
      [of "mk_visit ''OPD001'' ''Normal'' ''Waiting'' ''2024-05-01'' ''09:00:00''" "''09:00:00''"
          "strptime_on ''2024-05-01''" "''2024-05-01''" 32400000000 33300000000]
      strptime_on_0900
    by (simp add: mk_visit_def py_str_15)
  have b: "wait_str (strptime_on ''2024-05-01'') ''2024-05-01'' 33300000000
     [''id'' \<mapsto> ''OPD002''] = ''N/A''"
    using wait_str_truncated_minutes
      [of "[''id'' \<mapsto> ''OPD002'']" "[]" "strptime_on ''2024-05-01''" "''2024-05-01''" 0 33300000000]
    by simp
  have "strptime_on ''2024-05-01'' (''2024-05-01'' @ '' '' @ ''soon'') = None"
    by (simp add: strptime_on_def hms_seconds_def)
  then have c: "wait_str (strptime_on ''2024-05-01'') ''2024-05-01'' 33300000000
     (mk_visit ''OPD003'' ''Normal'' ''Waiting'' ''2024-05-01'' ''soon'') = ''N/A''"
    using wait_str_truncated_minutes
      [of "mk_visit ''OPD003'' ''Normal'' ''Waiting'' ''2024-05-01'' ''soon''" "''soon''"
          "strptime_on ''2024-05-01''" "''2024-05-01''" 0 33300000000]
    by (simp add: mk_visit_def)
  from a b c show ?thesis by simp
qed

lemma py_str_0: "py_str 0 = ''0''"
  by code_simp

lemma py_str_m1: "py_str (- 1) = ''-1''"
  by code_simp

text \<open>
  The claim as stated fails for a check-in thirty seconds after the reading of the
  clock: the floor of the minutes is \<open>-1\<close>, and the queue shows \<open>0 min\<close>.
\<close>

theorem wait_before_checkin_not_floor:
  "wait_str (strptime_on ''2024-05-01'') ''2024-05-01'' 32370000000
     (mk_visit ''OPD001'' ''Normal'' ''Waiting'' ''2024-05-01'' ''09:00:00'') = ''0 min''
   \<and> strptime_on ''2024-05-01'' (''2024-05-01'' @ '' '' @ ''09:00:00'') = Some 32400000000
   \<and> py_str ((32370000000 - 32400000000) div 60000000) @ '' min'' = ''-1 min''"
proof -
  have "wait_str (strptime_on ''2024-05-01'') ''2024-05-01'' 32370000000
     (mk_visit ''OPD001'' ''Normal'' ''Waiting'' ''2024-05-01'' ''09:00:00'')
     = py_str (wait_minutes (32370000000 - 32400000000)) @ '' min''"
    using strptime_on_0900 by (simp add: wait_str_def dict_get_def mk_visit_def)
  also have "wait_minutes (32370000000 - 32400000000) = 0"
    by (simp add: wait_minutes_def)
  finally show ?thesis
    using strptime_on_0900 by (simp add: py_str_0 py_str_m1)
qed

section \<open>Sequential identifiers and check-in\<close>

lemma max_id_loop_Cons:
  "max_id_loop (v # xs) p a
   = max_id_loop xs p (case id_number p v of None \<Rightarrow> a | Some k \<Rightarrow> max a k)"
  by (simp add: id_number_def split: option.split)

lemma max_id_loop_ge: "a \<le> max_id_loop xs p a"
proof (induction xs arbitrary: a)
  case Nil
  show ?case by simp
next
  case (Cons v xs)
  show ?case
  proof (cases "id_number p v")
    case None
    with Cons [of a] show ?thesis by (simp only: max_id_loop_Cons option.case)
  next
    case (Some k)
    then have "max_id_loop (v # xs) p a = max_id_loop xs p (max a k)"
      by (simp only: max_id_loop_Cons option.case)
    moreover have "max a k \<le> max_id_loop xs p (max a k)"
      by (rule Cons)
    ultimately show ?thesis by simp
  qed
qed

lemma max_id_loop_upper:
  "x \<in> set xs \<Longrightarrow> id_number p x = Some k \<Longrightarrow> k \<le> max_id_loop xs p a"
proof (induction xs arbitrary: a)
  case Nil
  then show ?case by simp
next
  case (Cons v xs)
  show ?case
  proof (cases "x = v")
    case True
    with Cons.prems have "max_id_loop (v # xs) p a = max_id_loop xs p (max a k)"
      by (simp only: max_id_loop_Cons option.case)
    with max_id_loop_ge [of "max a k" xs p] show ?thesis by simp
  next
    case False
    with Cons.prems have "x \<in> set xs" by simp
    from Cons.IH [OF this Cons.prems(2)] show ?thesis
      by (simp only: max_id_loop_Cons)
  qed
qed


lemma max_id_loop_append:
  "max_id_loop (xs @ ys) p a = max_id_loop ys p (max_id_loop xs p a)"
proof (induction xs arbitrary: a)
  case Nil
  show ?case by simp
next
  case (Cons v xs)
  show ?case
    by (simp only: append_Cons max_id_loop_Cons Cons)
qed

lemma generate_id_eq: "generate_id xs p = p @ format_03d (max_id_loop xs p 0 + 1)"
  by (simp add: generate_id_def format_03d_1)

lemma id_number_stamped:
  "0 \<le> n \<Longrightarrow>
   id_number ''OPD''
     (v(''id'' \<mapsto> ''OPD'' @ format_03d n, ''visit_date'' \<mapsto> d, ''visit_time'' \<mapsto> t)) = Some n"
  by (simp add: id_number_def startswith_def py_int_format_03d)


lemma add_visit_eq:
  "get_all_visits s = Inr xs \<Longrightarrow>
   add_visit s v d t =
     Inr (fst (save_data s opd_filename
                 (xs @ [v(''id'' \<mapsto> generate_id xs ''OPD'', ''visit_date'' \<mapsto> d, ''visit_time'' \<mapsto> t)])),
          v(''id'' \<mapsto> generate_id xs ''OPD'', ''visit_date'' \<mapsto> d, ''visit_time'' \<mapsto> t),
          snd (save_data s opd_filename
                 (xs @ [v(''id'' \<mapsto> generate_id xs ''OPD'', ''visit_date'' \<mapsto> d, ''visit_time'' \<mapsto> t)])))"
  by (simp add: add_visit_def case_prod_unfold Let_def)



lemma format_03d_3: "format_03d 3 = ''003''"
  by code_simp




lemma ascending_iff:
  "ascending ns \<longleftrightarrow> (\<forall>x \<in> set ns. x \<noteq> None) \<and> sorted_wrt (<) (map the ns)"
proof (induction ns rule: ascending.induct)
  case 1
  show ?case by simp
next
  case (2 x)
  show ?case by simp
next
  case (3 x y zs)
  show ?case
  proof (cases x)
    case None
    then show ?thesis by simp
  next
    case sx: (Some a)
    show ?thesis
    proof (cases y)
      case None
      with sx show ?thesis by simp
    next
      case (Some b)
      with sx 3 show ?thesis by auto
    qed
  qed
qed

lemma ascending_ids_iff:
  "ascending_ids xs \<longleftrightarrow>
     (\<forall>x \<in> set xs. id_number ''OPD'' x \<noteq> None)
     \<and> sorted_wrt (\<lambda>x y. the (id_number ''OPD'' x) < the (id_number ''OPD'' y)) xs"
  by (simp add: ascending_ids_def ascending_iff sorted_wrt_map)

lemma ascending_ids_filter: "ascending_ids xs \<Longrightarrow> ascending_ids (filter P xs)"
  by (simp add: ascending_ids_iff sorted_wrt_filter)

lemma ascending_ids_snoc:
  assumes "ascending_ids xs" and "id_number ''OPD'' v = Some n"
    and "\<forall>x \<in> set xs. \<forall>k. id_number ''OPD'' x = Some k \<longrightarrow> k < n"
  shows "ascending_ids (xs @ [v])"
  using assms by (auto simp: ascending_ids_iff sorted_wrt_append)

lemma add_visit_step:
  assumes "get_all_visits s = Inr xs" and "writable s (file_path opd_filename)"
  shows "\<exists>v' s'. add_visit s v d t = Inr (True, v', s')
      \<and> dict_get v' ''id'' [] = ''OPD'' @ format_03d (max_id_loop xs ''OPD'' 0 + 1)
      \<and> get_all_visits s' = Inr (xs @ [v'])
      \<and> writable s' (file_path opd_filename)
      \<and> max_id_loop (xs @ [v']) ''OPD'' 0 = max_id_loop xs ''OPD'' 0 + 1
      \<and> (ascending_ids xs \<longrightarrow> ascending_ids (xs @ [v']))"
proof -
  let ?m = "max_id_loop xs ''OPD'' 0"
  let ?v = "v(''id'' \<mapsto> ''OPD'' @ format_03d (?m + 1), ''visit_date'' \<mapsto> d, ''visit_time'' \<mapsto> t)"
  let ?s = "snd (save_data s opd_filename (xs @ [?v]))"
  have m0: "0 \<le> ?m" by (rule max_id_loop_ge)
  then have idn: "id_number ''OPD'' ?v = Some (?m + 1)"
    using id_number_stamped [of "?m + 1" v d t] by simp
  have "add_visit s v d t
      = Inr (fst (save_data s opd_filename (xs @ [?v])), ?v, ?s)"
    using add_visit_eq [OF assms(1), of v d t] by (simp only: generate_id_eq)
  moreover have "fst (save_data s opd_filename (xs @ [?v])) = True"
    "get_all_visits ?s = Inr (xs @ [?v])"
    using save_data_writable [OF assms(2), of "xs @ [?v]"] by (simp_all add: get_all_visits_def)
  ultimately have add: "add_visit s v d t = Inr (True, ?v, ?s)" "get_all_visits ?s = Inr (xs @ [?v])"
    by simp_all
  have w: "writable ?s (file_path opd_filename)"
    using assms(2) by (simp add: writable_save_data)
  have mx: "max_id_loop (xs @ [?v]) ''OPD'' 0 = ?m + 1"
    using idn by (simp only: max_id_loop_append max_id_loop_Cons option.case) simp
  have asc: "ascending_ids xs \<longrightarrow> ascending_ids (xs @ [?v])"
  proof
    assume a: "ascending_ids xs"
    have "\<forall>x \<in> set xs. \<forall>k. id_number ''OPD'' x = Some k \<longrightarrow> k < ?m + 1"
      using max_id_loop_upper [of _ xs "''OPD''" _ 0] by fastforce
    with a idn show "ascending_ids (xs @ [?v])"
      by (rule ascending_ids_snoc)
  qed
  have "dict_get ?v ''id'' [] = ''OPD'' @ format_03d (?m + 1)"
    by (simp add: dict_get_def)
  with add w mx asc show ?thesis by blast
qed

lemma delete_visit_step:
  assumes "get_all_visits s = Inr xs" and "writable s (file_path opd_filename)"
  shows "\<exists>s'. delete_visit s i = Inr (True, s')
      \<and> get_all_visits s' = Inr (filter (\<lambda>v. v ''id'' \<noteq> Some i) xs)
      \<and> writable s' (file_path opd_filename)"
proof -
  let ?ys = "filter (\<lambda>v. v ''id'' \<noteq> Some i) xs"
  let ?s = "snd (save_data s opd_filename ?ys)"
  have "delete_visit s i = Inr (fst (save_data s opd_filename ?ys), ?s)"
    using assms(1) by (simp add: delete_visit_def)
  moreover have "fst (save_data s opd_filename ?ys) = True" "get_all_visits ?s = Inr ?ys"
    using save_data_writable [OF assms(2), of ?ys] by (simp_all add: get_all_visits_def)
  moreover have "writable ?s (file_path opd_filename)"
    using assms(2) by (simp add: writable_save_data)
  ultimately show ?thesis by simp
qed

lemma run_ops_invariant:
  assumes "get_all_visits s = Inr xs" and "writable s (file_path opd_filename)"
  shows "\<exists>ids s' ys. run_ops s ops = Inr (ids, s') \<and> get_all_visits s' = Inr ys
      \<and> (ascending_ids xs \<longrightarrow> ascending_ids ys)"
  using assms
proof (induction ops arbitrary: s xs)
  case Nil
  then show ?case by simp
next
  case (Cons op ops)
  show ?case
  proof (cases op)
    case (Add v d t)
    from add_visit_step [OF Cons.prems, of v d t] obtain v' s1 where
      s1: "add_visit s v d t = Inr (True, v', s1)" "get_all_visits s1 = Inr (xs @ [v'])"
        "writable s1 (file_path opd_filename)" "ascending_ids xs \<longrightarrow> ascending_ids (xs @ [v'])"
      by blast
    from Cons.IH [OF s1(2,3)] obtain ids s' ys where
      "run_ops s1 ops = Inr (ids, s')" "get_all_visits s' = Inr ys"
      "ascending_ids (xs @ [v']) \<longrightarrow> ascending_ids ys"
      by blast
    with s1 Add show ?thesis by simp
  next
    case (Delete i)
    from delete_visit_step [OF Cons.prems, of i] obtain s1 where
      s1: "delete_visit s i = Inr (True, s1)"
        "get_all_visits s1 = Inr (filter (\<lambda>v. v ''id'' \<noteq> Some i) xs)"
        "writable s1 (file_path opd_filename)"
      by blast
    from Cons.IH [OF s1(2,3)] obtain ids s' ys where
      "run_ops s1 ops = Inr (ids, s')" "get_all_visits s' = Inr ys"
      "ascending_ids (filter (\<lambda>v. v ''id'' \<noteq> Some i) xs) \<longrightarrow> ascending_ids ys"
      by blast
    with s1 Delete show ?thesis by (auto simp: ascending_ids_filter)
  qed
qed

lemma run_ops_adds:
  assumes "get_all_visits s = Inr xs" and "writable s (file_path opd_filename)"
    and "list_all is_add ops"
  shows "map_sum id fst (run_ops s ops)
     = Inr (map (\<lambda>i. ''OPD'' @ format_03d (max_id_loop xs ''OPD'' 0 + 1 + int i)) [0..<length ops])"
  using assms
proof (induction ops arbitrary: s xs)
  case Nil
  then show ?case by simp
next
  case (Cons op ops)
  from Cons.prems(3) have "is_add op" and rest: "list_all is_add ops"
    by simp_all
  then obtain v d t where op: "op = Add v d t"
    by (cases op) (simp_all add: is_add_def)
  from add_visit_step [OF Cons.prems(1,2), of v d t] obtain v' s1 where
    s1: "add_visit s v d t = Inr (True, v', s1)"
      "dict_get v' ''id'' [] = ''OPD'' @ format_03d (max_id_loop xs ''OPD'' 0 + 1)"
      "get_all_visits s1 = Inr (xs @ [v'])"
      "writable s1 (file_path opd_filename)"
      "max_id_loop (xs @ [v']) ''OPD'' 0 = max_id_loop xs ''OPD'' 0 + 1"
    by blast
  let ?m = "max_id_loop xs ''OPD'' 0"
  from Cons.IH [OF s1(3,4) rest]
  have ih: "map_sum id fst (run_ops s1 ops)
     = Inr (map (\<lambda>i. ''OPD'' @ format_03d (?m + 1 + 1 + int i)) [0..<length ops])"
    by (simp only: s1(5))
  then obtain ids s' where r: "run_ops s1 ops = Inr (ids, s')"
    "ids = map (\<lambda>i. ''OPD'' @ format_03d (?m + 1 + 1 + int i)) [0..<length ops]"
    by (cases "run_ops s1 ops") auto
  have "[0..<length (op # ops)] = 0 # map Suc [0..<length ops]"
    by (simp add: upt_conv_Cons map_Suc_upt del: upt_Suc)
  then have "map (\<lambda>i. ''OPD'' @ format_03d (?m + 1 + int i)) [0..<length (op # ops)]
      = (''OPD'' @ format_03d (?m + 1)) # ids"
    using r(2) by (simp add: comp_def algebra_simps del: upt_Suc)
  with op s1(1,2) r(1) show ?case by simp
qed

lemma ascending_ids_three: "ascending_ids three_visits"
  by (simp add: ascending_ids_def id_number_def three_visits_def two_visits_def mk_visit_def
      startswith_def py_int_def strip_def py_isspace_def unsigned_def digit_val_def)

lemma max_id_two: "max_id_loop two_visits ''OPD'' 0 = 2"
  by (simp add: two_visits_def mk_visit_def
      startswith_def py_int_def strip_def py_isspace_def unsigned_def digit_val_def)

text \<open>
  Claim C2, amended. In every run of check-ins and deletions on a store whose file can be
  written, each check-in stores an id whose number is one more than the greatest number
  among the ids then stored. So when the numbers of the stored ids grow strictly along the
  list at the start (as in the empty store), they do so after the run, and no two stored
  visits share an id; and a run of check-ins alone issues the consecutive ids after the
  greatest number of the start. The number of a deleted record may be issued again.
\<close>

theorem run_ops_ids:
  assumes "get_all_visits s = Inr xs" and "writable s (file_path opd_filename)"
  shows "\<exists>ids s' ys. run_ops s ops = Inr (ids, s') \<and> get_all_visits s' = Inr ys
      \<and> (ascending_ids xs \<longrightarrow> ascending_ids ys)
      \<and> (list_all is_add ops \<longrightarrow>
           ids = map (\<lambda>i. ''OPD'' @ format_03d (max_id_loop xs ''OPD'' 0 + 1 + int i))
                   [0..<length ops])"
proof -
  from run_ops_invariant [OF assms, of ops] obtain ids s' ys where
    r: "run_ops s ops = Inr (ids, s')" "get_all_visits s' = Inr ys"
      "ascending_ids xs \<longrightarrow> ascending_ids ys"
    by blast
  have "list_all is_add ops \<longrightarrow>
           ids = map (\<lambda>i. ''OPD'' @ format_03d (max_id_loop xs ''OPD'' 0 + 1 + int i))
                   [0..<length ops]"
    using run_ops_adds [OF assms, of ops] r(1) by simp
  with r show ?thesis by blast
qed

theorem run_ops_ids_witness:
  "\<exists>ids s' ys. run_ops (opd_store three_visits)
        [Delete ''OPD002'', Add [''patient_id'' \<mapsto> ''PAT007''] ''2024-05-01'' ''10:00:00'']
        = Inr (ids, s')
      \<and> get_all_visits s' = Inr ys \<and> ascending_ids ys"
  using run_ops_ids [of "opd_store three_visits" three_visits
      "[Delete ''OPD002'', Add [''patient_id'' \<mapsto> ''PAT007''] ''2024-05-01'' ''10:00:00'']"]
  by (simp add: get_all_visits_opd_store writable_opd_store ascending_ids_three is_add_def)

text \<open>
  The claim as stated fails: after \<open>OPD003\<close>, the record with the greatest number, is
  deleted, the next check-in is given \<open>OPD003\<close> again.
\<close>

theorem id_reused_after_delete:
  "map_sum id fst
     (run_ops (opd_store three_visits)
        [Delete ''OPD003'', Add [''patient_id'' \<mapsto> ''PAT007''] ''2024-05-01'' ''10:00:00''])
   = Inr [''OPD003'']"
proof -
  let ?s = "opd_store three_visits"
  have f: "filter (\<lambda>v. v ''id'' \<noteq> Some ''OPD003'') three_visits = two_visits"
    by (simp add: three_visits_def two_visits_def mk_visit_def)
  from delete_visit_step [of ?s three_visits "''OPD003''"] obtain s1 where
    s1: "delete_visit ?s ''OPD003'' = Inr (True, s1)" "get_all_visits s1 = Inr two_visits"
      "writable s1 (file_path opd_filename)"
    using f by (auto simp: get_all_visits_opd_store writable_opd_store)
  from add_visit_step [OF s1(2,3), of "[''patient_id'' \<mapsto> ''PAT007'']" "''2024-05-01''" "''10:00:00''"]
  obtain v' s2 where
    s2: "add_visit s1 [''patient_id'' \<mapsto> ''PAT007''] ''2024-05-01'' ''10:00:00'' = Inr (True, v', s2)"
      "dict_get v' ''id'' [] = ''OPD003''"
    by (auto simp: max_id_two format_03d_3)
  from s1(1) s2 show ?thesis by simp
qed

end
